theory Spec2Isabelle
  imports Main
begin

section \<open>JavaScript values used by the mail service\<close>

text \<open>
  The service (\<^verbatim>\<open>src/services/gmailService.js\<close>) is written as callbacks on one IMAP
  session. An error object is modelled by the two fields the code reads, \<^verbatim>\<open>err.code\<close>
  and \<^verbatim>\<open>err.message\<close>. A promise is unsettled until the first \<^verbatim>\<open>resolve\<close> or
  \<^verbatim>\<open>reject\<close>; later calls change nothing.
\<close>

datatype jserror = JsError (code: "string option") (message: string)

datatype 'a promise = Unsettled | Resolved 'a | Rejected jserror

definition resolve :: "'a \<Rightarrow> 'a promise \<Rightarrow> 'a promise" where
  "resolve v p = (case p of Unsettled \<Rightarrow> Resolved v | Resolved w \<Rightarrow> Resolved w | Rejected e \<Rightarrow> Rejected e)"

definition reject :: "jserror \<Rightarrow> 'a promise \<Rightarrow> 'a promise" where
  "reject e p = (case p of Unsettled \<Rightarrow> Rejected e | Resolved w \<Rightarrow> Resolved w | Rejected d \<Rightarrow> Rejected d)"

text \<open>\<^verbatim>\<open>a || d\<close> on an optional string: \<^verbatim>\<open>undefined\<close> and the empty string are falsy.\<close>

definition or_default :: "string option \<Rightarrow> string \<Rightarrow> string" where
  "or_default v d = (case v of None \<Rightarrow> d | Some s \<Rightarrow> (if s = [] then d else s))"

definition truthy :: "string option \<Rightarrow> bool" where
  "truthy v = (case v of None \<Rightarrow> False | Some s \<Rightarrow> s \<noteq> [])"

text \<open>
  \<^verbatim>\<open>Array.prototype.slice(start)\<close>: a negative start counts from the end, and the
  start is clamped to the array. \<^verbatim>\<open>-0\<close> is \<open>0\<close>, so it is not negative.
\<close>

definition slice_from :: "int \<Rightarrow> 'a list \<Rightarrow> 'a list" where
  "slice_from start xs =
     (let len = int (length xs);
          k = (if start < 0 then max (len + start) 0 else min start len)
      in drop (nat k) xs)"

section \<open>The local store (\<^verbatim>\<open>src/models/Email.js\<close>)\<close>

text \<open>
  A stored message carries the fields the fetch pipeline sets. The schema makes
  \<^verbatim>\<open>from\<close>, \<^verbatim>\<open>to\<close>, \<^verbatim>\<open>subject\<close>, \<^verbatim>\<open>body\<close> and \<^verbatim>\<open>userId\<close> required (for a string,
  Mongoose's required check refuses the empty string) and declares \<^verbatim>\<open>messageId\<close> with
  \<^verbatim>\<open>unique: true, sparse: true\<close>: a unique index over the whole collection, whatever the
  owner, that leaves out the documents with no \<^verbatim>\<open>messageId\<close>.
\<close>

datatype email_status = pending | processing | replied | failed | ignored

record email =
  userId :: nat
  from_field :: string
  to_field :: string
  subject :: string
  body :: string
  messageId :: "string option"
  inReplyTo :: "string option"
  status :: email_status
  receivedAt :: nat

type_synonym store = "email list"

text \<open>
  What \<^verbatim>\<open>simpleParser\<close> hands to the callback. The fields \<^verbatim>\<open>from?.text\<close>, \<^verbatim>\<open>to?.text\<close>,
  \<^verbatim>\<open>subject\<close>, \<^verbatim>\<open>text\<close>, \<^verbatim>\<open>html\<close>, \<^verbatim>\<open>inReplyTo\<close> and \<^verbatim>\<open>date\<close> may be missing. The model
  covers the messages that carry a Message-ID header, so \<^verbatim>\<open>parsed.messageId\<close> is a string.
\<close>

record parsed_mail =
  p_from :: "string option"
  p_to :: "string option"
  p_subject :: "string option"
  p_text :: "string option"
  p_html :: "string option"
  p_messageId :: string
  p_inReplyTo :: "string option"
  p_date :: "nat option"

text \<open>\<^verbatim>\<open>Email.findOne({ userId, messageId: parsed.messageId })\<close>\<close>

definition findOne :: "nat \<Rightarrow> string \<Rightarrow> store \<Rightarrow> email option" where
  "findOne u m st = find (\<lambda>e. userId e = u \<and> messageId e = Some m) st"

datatype db_error = ValidationError | DuplicateKey

definition required_ok :: "email \<Rightarrow> bool" where
  "required_ok e = (from_field e \<noteq> [] \<and> to_field e \<noteq> [] \<and> subject e \<noteq> [] \<and> body e \<noteq> [])"

definition unique_ok :: "email \<Rightarrow> store \<Rightarrow> bool" where
  "unique_ok e st =
     (case messageId e of
        None \<Rightarrow> True
      | Some m \<Rightarrow> find (\<lambda>x. messageId x = Some m) st = None)"

text \<open>\<^verbatim>\<open>newEmail.save()\<close>: validation, then the insert under the unique index.\<close>

definition save :: "email \<Rightarrow> store \<Rightarrow> db_error + store" where
  "save e st =
     (if \<not> required_ok e then Inl ValidationError
      else if \<not> unique_ok e st then Inl DuplicateKey
      else Inr (st @ [e]))"

text \<open>\<^verbatim>\<open>new Email({...})\<close> of lines 307-317; \<open>now\<close> is what \<^verbatim>\<open>new Date()\<close> reads.\<close>

definition newEmail :: "nat \<Rightarrow> nat \<Rightarrow> parsed_mail \<Rightarrow> email" where
  "newEmail u now p =
     \<lparr> userId = u,
       from_field = or_default (p_from p) [],
       to_field = or_default (p_to p) [],
       subject = or_default (p_subject p) ''(No Subject)'',
       body = or_default (p_text p) (or_default (p_html p) []),
       messageId = Some (p_messageId p),
       inReplyTo = p_inReplyTo p,
       status = pending,
       receivedAt = (case p_date p of None \<Rightarrow> now | Some d \<Rightarrow> d) \<rparr>"

section \<open>One IMAP session as an event-driven machine\<close>

text \<open>
  Both operations build a promise whose executor arms timers, registers one-shot
  listeners for the session's \<^verbatim>\<open>ready\<close>, \<^verbatim>\<open>error\<close> and \<^verbatim>\<open>end\<close> events, and then chains
  protocol commands through callbacks. The model is the state those handlers share and
  one transition per handler; an event whose handler is not registered (a cleared timer,
  a one-shot listener that has fired, a reply nobody waits for) changes nothing. Events
  may come in any order, so a statement about every list of events covers every order in
  which the server, the timers and the store can answer.
  \<open>endCalls\<close> counts the calls of \<^verbatim>\<open>imap.end()\<close>.

  Both operations first read the account's credentials (\<^verbatim>\<open>getGmailConfig\<close>); when that
  throws, the operation fails before a session exists. The machines below start where the
  executor of the promise runs.
\<close>

datatype timer = ConnectionTimeout | OperationTimeout | ParseDelay

datatype box = Box (children: "(string \<times> box) list option")

type_synonym boxes = "(string \<times> box) list"

datatype parse_result = ParseError | Parsed parsed_mail

datatype event =
    Ready
  | SessionError jserror
  | SessionEnd
  | TimerFires timer
  | BoxesReply "jserror + boxes"
  | OpenBoxReply "jserror + nat"
  | SearchReply "jserror + nat list"
  | AddFlagsReply "jserror option"
  | ExpungeReply "jserror option"
  | Message parse_result
  | SaveCompletes nat
  | FetchError jserror
  | FetchEnd

text \<open>
  The phase names the callback the chain of an operation waits for: \<open>AwaitReady\<close> after
  \<^verbatim>\<open>imap.connect()\<close>, then one phase per protocol command. In a fetch, \<open>AwaitFetch\<close>
  lasts while the fetch emitter delivers messages, \<open>FetchFailed\<close> follows its \<^verbatim>\<open>error\<close>
  (its \<^verbatim>\<open>end\<close> listener is still registered) and \<open>Grace\<close> is the two-second delay after
  its \<^verbatim>\<open>end\<close>. \<open>Finished\<close>: the chain reached its last step and called \<^verbatim>\<open>imap.end()\<close>.
  \<open>Aborted\<close>: the chain gave up on a failed command. \<open>Thrown\<close>: a callback raised and the
  chain stopped there.
\<close>

datatype phase =
    AwaitReady | AwaitBoxes | AwaitOpenBox | AwaitSearch | AwaitAddFlags | AwaitExpunge
  | AwaitFetch | FetchFailed | Grace | Finished | Aborted | Thrown

record 'a session =
  promise :: "'a promise"
  timers :: "timer set"
  endCalls :: nat
  onError :: bool
  onEnd :: bool
  phase :: phase

text \<open>\<^verbatim>\<open>clearTimeout(operationTimeout); imap.end(); reject(err)\<close>, the exit of lines 253-255,
  264-266, 340-342 and 509-511.\<close>

definition closeAndReject :: "jserror \<Rightarrow> ('a, 'b) session_scheme \<Rightarrow> ('a, 'b) session_scheme" where
  "closeAndReject err s =
     s\<lparr> timers := timers s - {OperationTimeout},
        endCalls := endCalls s + 1,
        promise := reject err (promise s) \<rparr>"

section \<open>\<^verbatim>\<open>fetchGmailEmails\<close>\<close>

text \<open>
  The parser callback of a message is an async function: it awaits \<^verbatim>\<open>Email.findOne\<close> and,
  for an unknown message, \<^verbatim>\<open>newEmail.save()\<close>, and other handlers may run in between. So a
  message takes two events. \<open>Message\<close> is the callback up to the save it issues: the lookup
  and, when nothing is found, the new document, which joins the documents in \<open>saving\<close>.
  \<open>SaveCompletes k\<close> is the save of the \<open>k\<close>-th of these reaching the store, with the rest of
  the callback. The promise resolves with the array \<^verbatim>\<open>emails\<close>; the model keeps its content
  at that moment.
\<close>

record fstate = "email list session" +
  fetchCompleted :: bool
  emails :: "email list"
  saving :: "email list"
  emailsToFetch :: "nat list"
  processedCount :: nat
  db :: store

text \<open>
  The parameters of a fetch: \<open>owner\<close> is \<^verbatim>\<open>userId\<close>, \<open>limit\<close> the option of that name (a
  count, so not negative) and \<open>clock\<close> what \<^verbatim>\<open>new Date()\<close> reads. The search criteria are
  passed to the server as they are and do not reach the handlers.
\<close>

record fetch_cfg =
  owner :: nat
  limit :: nat
  clock :: nat

definition operationTimeoutError :: jserror where
  "operationTimeoutError = JsError None ''IMAP operation timeout after 30 seconds''"

definition connectionTimeoutError :: jserror where
  "connectionTimeoutError = JsError None ''Connection timeout - Gmail server not responding''"

definition connectionResetHint :: string where
  "connectionResetHint =
     ''Connection reset by Gmail. This usually means:'' @ [CHR 0x0A] @
     ''1. IMAP is not enabled in Gmail settings'' @ [CHR 0x0A] @
     ''2. You're using your regular password instead of an App Password'' @ [CHR 0x0A] @
     ''3. Too many failed connection attempts'' @ [CHR 0x0A, CHR 0x0A] @
     ''Please:'' @ [CHR 0x0A] @
     ''- Enable IMAP: https://mail.google.com/mail/u/0/#settings/fwdandpop'' @ [CHR 0x0A] @
     ''- Use App Password: https://myaccount.google.com/apppasswords'' @ [CHR 0x0A] @
     ''- Wait a few minutes if you've tried multiple times''"

text \<open>The error the session-level \<^verbatim>\<open>error\<close> handler rejects with (lines 365-382).\<close>

definition sessionErrorFor :: "jserror \<Rightarrow> jserror" where
  "sessionErrorFor err =
     (if code err = Some ''ECONNRESET'' then JsError None connectionResetHint
      else if code err = Some ''ENOTFOUND'' then
        JsError None ''Could not reach Gmail servers. Check your internet connection.''
      else if code err = Some ''ETIMEDOUT'' then
        JsError None ''Connection to Gmail timed out. Check your firewall settings.''
      else err)"

text \<open>The parser callback of lines 291-330 on a parsed message, up to \<^verbatim>\<open>await
  newEmail.save()\<close>.\<close>

definition checkParsed :: "fetch_cfg \<Rightarrow> parsed_mail \<Rightarrow> fstate \<Rightarrow> fstate" where
  "checkParsed cfg p s =
     (case findOne (owner cfg) (p_messageId p) (db s) of
        Some existingEmail \<Rightarrow> s\<lparr> processedCount := processedCount s + 1 \<rparr>
      | None \<Rightarrow> s\<lparr> saving := saving s @ [newEmail (owner cfg) (clock cfg) p] \<rparr>)"

text \<open>The save of the \<open>k\<close>-th awaited document and the lines after it (320-329): the
  document is pushed when the save succeeded, the error is caught when it did not.\<close>

definition completeSave :: "nat \<Rightarrow> fstate \<Rightarrow> fstate" where
  "completeSave k s =
     (if k < length (saving s)
      then (case save (saving s ! k) (db s) of
              Inl dbError \<Rightarrow>
                s\<lparr> saving := take k (saving s) @ drop (Suc k) (saving s),
                   processedCount := processedCount s + 1 \<rparr>
            | Inr db' \<Rightarrow>
                s\<lparr> db := db',
                   emails := emails s @ [saving s ! k],
                   saving := take k (saving s) @ drop (Suc k) (saving s),
                   processedCount := processedCount s + 1 \<rparr>)
      else s)"

definition fetching :: "phase \<Rightarrow> bool" where
  "fetching ph = (ph = AwaitFetch \<or> ph = FetchFailed \<or> ph = Grace \<or> ph = Finished)"

fun fetch_step :: "fetch_cfg \<Rightarrow> event \<Rightarrow> fstate \<Rightarrow> fstate" where
  "fetch_step cfg Ready s =
     (if phase s = AwaitReady
      then s\<lparr> timers := timers s - {ConnectionTimeout}, phase := AwaitOpenBox \<rparr>
      else s)"
| "fetch_step cfg (OpenBoxReply r) s =
     (if phase s = AwaitOpenBox
      then (case r of
              Inl err \<Rightarrow> (closeAndReject err s)\<lparr> phase := Aborted \<rparr>
            | Inr messagesTotal \<Rightarrow> s\<lparr> phase := AwaitSearch \<rparr>)
      else s)"
| "fetch_step cfg (SearchReply r) s =
     (if phase s = AwaitSearch
      then (case r of
              Inl err \<Rightarrow> (closeAndReject err s)\<lparr> phase := Aborted \<rparr>
            | Inr results \<Rightarrow>
                (if results = []
                 then s\<lparr> timers := timers s - {OperationTimeout},
                         endCalls := endCalls s + 1,
                         promise := resolve [] (promise s),
                         phase := Aborted \<rparr>
                 else s\<lparr> emailsToFetch := slice_from (- int (limit cfg)) results,
                         processedCount := 0,
                         phase := AwaitFetch \<rparr>))
      else s)"
| "fetch_step cfg (Message m) s =
     (if fetching (phase s)
      then (case m of
              ParseError \<Rightarrow> s\<lparr> processedCount := processedCount s + 1 \<rparr>
            | Parsed p \<Rightarrow> checkParsed cfg p s)
      else s)"
| "fetch_step cfg (SaveCompletes k) s = completeSave k s"
| "fetch_step cfg (FetchError err) s =
     (if phase s = AwaitFetch
      then (closeAndReject err s)\<lparr> phase := FetchFailed \<rparr>
      else s)"
| "fetch_step cfg FetchEnd s =
     (if phase s = AwaitFetch \<or> phase s = FetchFailed
      then s\<lparr> fetchCompleted := True, timers := insert ParseDelay (timers s), phase := Grace \<rparr>
      else s)"
| "fetch_step cfg (TimerFires t) s =
     (if t \<in> timers s
      then (case t of
              OperationTimeout \<Rightarrow>
                s\<lparr> timers := timers s - {OperationTimeout},
                   endCalls := endCalls s + 1,
                   promise := reject operationTimeoutError (promise s) \<rparr>
            | ConnectionTimeout \<Rightarrow>
                s\<lparr> timers := timers s - {ConnectionTimeout},
                   endCalls := endCalls s + 1,
                   promise := reject connectionTimeoutError (promise s) \<rparr>
            | ParseDelay \<Rightarrow>
                s\<lparr> timers := timers s - {ParseDelay, OperationTimeout},
                   endCalls := endCalls s + 1,
                   phase := Finished \<rparr>)
      else s)"
| "fetch_step cfg (SessionError err) s =
     (if onError s
      then s\<lparr> onError := False,
              timers := timers s - {ConnectionTimeout, OperationTimeout},
              promise := reject (sessionErrorFor err) (promise s) \<rparr>
      else s)"
| "fetch_step cfg SessionEnd s =
     (if onEnd s
      then (let s' = s\<lparr> onEnd := False, timers := timers s - {OperationTimeout} \<rparr>
            in if fetchCompleted s' then s'\<lparr> promise := resolve (emails s') (promise s') \<rparr> else s')
      else s)"
| "fetch_step cfg (BoxesReply r) s = s"
| "fetch_step cfg (AddFlagsReply r) s = s"
| "fetch_step cfg (ExpungeReply r) s = s"

text \<open>The state the executor leaves when it returns (lines 235-244 and 394-401).\<close>

definition fetch_init :: "store \<Rightarrow> fstate" where
  "fetch_init st =
     \<lparr> promise = Unsettled,
       timers = {OperationTimeout, ConnectionTimeout},
       endCalls = 0,
       onError = True,
       onEnd = True,
       phase = AwaitReady,
       fetchCompleted = False,
       emails = [],
       saving = [],
       emailsToFetch = [],
       processedCount = 0,
       db = st \<rparr>"

definition fetch_run :: "fetch_cfg \<Rightarrow> event list \<Rightarrow> fstate \<Rightarrow> fstate" where
  "fetch_run cfg es s = foldl (\<lambda>s e. fetch_step cfg e s) s es"

section \<open>\<^verbatim>\<open>deleteGmailEmails\<close>\<close>

subsection \<open>The category table and its lookup\<close>

record category_config =
  cfg_folders :: "string list"
  cfg_label :: "string option"
  cfg_searchFrom :: "string option"

definition categoryMap :: "(string \<times> category_config) list" where
  "categoryMap =
     [(''promotional'',
         \<lparr> cfg_folders = [''[Gmail]/Promotions'', ''Promotions''],
           cfg_label = Some ''Promotions'', cfg_searchFrom = None \<rparr>),
      (''social'',
         \<lparr> cfg_folders = [''[Gmail]/Social'', ''Social''],
           cfg_label = Some ''Social'', cfg_searchFrom = None \<rparr>),
      (''updates'',
         \<lparr> cfg_folders = [''[Gmail]/Updates'', ''Updates''],
           cfg_label = Some ''Updates'', cfg_searchFrom = None \<rparr>),
      (''purchases'',
         \<lparr> cfg_folders = [''[Gmail]/Purchases'', ''Purchases''],
           cfg_label = Some ''Purchases'', cfg_searchFrom = None \<rparr>),
      (''spam'',
         \<lparr> cfg_folders = [''[Gmail]/Spam'', ''Spam'', ''Junk''],
           cfg_label = None, cfg_searchFrom = None \<rparr>),
      (''trash'',
         \<lparr> cfg_folders = [''[Gmail]/Trash'', ''Trash'', ''[Gmail]/Bin''],
           cfg_label = None, cfg_searchFrom = None \<rparr>),
      (''noreply'',
         \<lparr> cfg_folders = [''INBOX''],
           cfg_label = None, cfg_searchFrom = Some ''noreply'' \<rparr>)]"

text \<open>
  \<^verbatim>\<open>categoryMap\<close> is an object literal, so \<^verbatim>\<open>categoryMap[category]\<close> reads its own
  properties first and then those it inherits from \<^verbatim>\<open>Object.prototype\<close>. An inherited
  value is a function (or, for \<^verbatim>\<open>__proto__\<close>, the prototype object): truthy, with no
  \<^verbatim>\<open>label\<close>, \<^verbatim>\<open>searchFrom\<close> or \<^verbatim>\<open>folders\<close> property.
\<close>

definition objectPrototypeNames :: "string list" where
  "objectPrototypeNames =
     [''constructor'', ''hasOwnProperty'', ''isPrototypeOf'', ''propertyIsEnumerable'',
      ''toLocaleString'', ''toString'', ''valueOf'', ''__proto__'',
      ''__defineGetter__'', ''__defineSetter__'', ''__lookupGetter__'', ''__lookupSetter__'']"

datatype config_lookup = Own category_config | Inherited | Missing

definition categoryConfig :: "string \<Rightarrow> config_lookup" where
  "categoryConfig category =
     (case map_of categoryMap category of
        Some c \<Rightarrow> Own c
      | None \<Rightarrow> (if category \<in> set objectPrototypeNames then Inherited else Missing))"

subsection \<open>Resolving a category to folders\<close>

text \<open>
  \<^verbatim>\<open>mailboxExists\<close> (lines 551-559) on the tree \<^verbatim>\<open>getBoxes\<close> returned. It is called with
  the candidate names of the table only; a name that starts with \<^verbatim>\<open>[Gmail]/\<close> has its
  first eight characters removed by \<^verbatim>\<open>replace\<close>.
\<close>

definition mailboxExists :: "boxes \<Rightarrow> string \<Rightarrow> bool" where
  "mailboxExists bx name =
     (if map_of bx name \<noteq> None then True
      else if take 8 name = ''[Gmail]/'' then
        (case map_of bx ''[Gmail]'' of
           None \<Rightarrow> False
         | Some b \<Rightarrow>
             (case children b of
                None \<Rightarrow> False
              | Some ch \<Rightarrow> map_of ch (drop 8 name) \<noteq> None))
      else False)"

record folder_ref =
  folder :: string
  useLabel :: bool
  labelName :: "string option"
  searchFrom :: "string option"

text \<open>The loop \<^verbatim>\<open>for (const possibleFolder of categoryConfig.folders)\<close> with its
  \<^verbatim>\<open>break\<close>: the first candidate that exists.\<close>

definition firstExisting :: "boxes \<Rightarrow> string list \<Rightarrow> string option" where
  "firstExisting bx names = find (mailboxExists bx) names"

text \<open>Lines 563-607: what \<^verbatim>\<open>foldersToProcess\<close> holds for a category of the table.\<close>

definition resolveFolders :: "boxes \<Rightarrow> category_config \<Rightarrow> folder_ref list" where
  "resolveFolders bx c =
     (if truthy (cfg_label c) then
        \<lparr> folder = ''INBOX'', useLabel = True, labelName = cfg_label c, searchFrom = None \<rparr> #
        (case firstExisting bx (cfg_folders c) of
           None \<Rightarrow> []
         | Some f \<Rightarrow> [\<lparr> folder = f, useLabel = False, labelName = None, searchFrom = None \<rparr>])
      else if truthy (cfg_searchFrom c) then
        (case firstExisting bx (cfg_folders c) of
           None \<Rightarrow> []
         | Some f \<Rightarrow>
             [\<lparr> folder = f, useLabel = False, labelName = None,
                searchFrom = cfg_searchFrom c \<rparr>])
      else
        (case firstExisting bx (cfg_folders c) of
           None \<Rightarrow> []
         | Some f \<Rightarrow> [\<lparr> folder = f, useLabel = False, labelName = None, searchFrom = None \<rparr>]))"

subsection \<open>The state of a cleanup run and its handlers\<close>

text \<open>
  \<open>deletedCounts\<close> is the object the promise resolves with: assigning a key that exists
  replaces its value in place, a new key is appended. The other fields are the variables
  the nested callbacks close over; \<open>catIndex\<close> is \<^verbatim>\<open>index\<close> of \<^verbatim>\<open>processCategory\<close>.
\<close>

fun setCount :: "string \<Rightarrow> nat \<Rightarrow> (string \<times> nat) list \<Rightarrow> (string \<times> nat) list" where
  "setCount k v [] = [(k, v)]"
| "setCount k v ((k', v') # kvs) =
     (if k' = k then (k, v) # kvs else (k', v') # setCount k v kvs)"

record cstate = "(string \<times> nat) list session" +
  boxTree :: boxes
  deletedCounts :: "(string \<times> nat) list"
  processedCategories :: nat
  catIndex :: nat
  category :: string
  foldersToProcess :: "folder_ref list"
  categoryTotalDeleted :: nat
  foldersProcessed :: nat
  folderIndex :: nat
  results :: "nat list"

definition cleanupTimeoutError :: jserror where
  "cleanupTimeoutError = JsError None ''IMAP operation timeout after 600 seconds''"

text \<open>
  \<^verbatim>\<open>processCategory(index)\<close> (lines 529-709) up to the first command it issues. A category
  with folders starts \<^verbatim>\<open>processFolders(0)\<close>, which opens the first folder. For a name the
  table only inherits, the loop over \<^verbatim>\<open>categoryConfig.folders\<close> (\<^verbatim>\<open>undefined\<close>) raises a
  TypeError inside the callback. The search criteria of a folder (lines 651-659) go to the
  server and do not reach the handlers.
\<close>

function processCategory :: "string list \<Rightarrow> nat \<Rightarrow> cstate \<Rightarrow> cstate" where
  "processCategory categories i s =
     (if length categories \<le> i
      then s\<lparr> timers := timers s - {OperationTimeout},
              endCalls := endCalls s + 1,
              phase := Finished \<rparr>
      else (case categoryConfig (categories ! i) of
              Missing \<Rightarrow>
                processCategory categories (i + 1)
                  (s\<lparr> deletedCounts := setCount (categories ! i) 0 (deletedCounts s),
                      processedCategories := processedCategories s + 1 \<rparr>)
            | Inherited \<Rightarrow> s\<lparr> phase := Thrown \<rparr>
            | Own c \<Rightarrow>
                (if resolveFolders (boxTree s) c = []
                 then processCategory categories (i + 1)
                        (s\<lparr> deletedCounts := setCount (categories ! i) 0 (deletedCounts s),
                            processedCategories := processedCategories s + 1 \<rparr>)
                 else s\<lparr> catIndex := i,
                         category := categories ! i,
                         foldersToProcess := resolveFolders (boxTree s) c,
                         categoryTotalDeleted := 0,
                         foldersProcessed := 0,
                         folderIndex := 0,
                         phase := AwaitOpenBox \<rparr>)))"
  by pat_completeness auto
termination
  by (relation "measure (\<lambda>(categories, i, s). length categories - i)") auto

text \<open>\<^verbatim>\<open>processFolders(folderIndex)\<close> (lines 621-633) up to the \<^verbatim>\<open>openBox\<close> it issues.\<close>

definition processFolders :: "string list \<Rightarrow> nat \<Rightarrow> cstate \<Rightarrow> cstate" where
  "processFolders categories j s =
     (if length (foldersToProcess s) \<le> j
      then processCategory categories (catIndex s + 1)
             (s\<lparr> deletedCounts := setCount (category s) (categoryTotalDeleted s) (deletedCounts s),
                 processedCategories := processedCategories s + 1 \<rparr>)
      else s\<lparr> folderIndex := j, phase := AwaitOpenBox \<rparr>)"

text \<open>\<^verbatim>\<open>foldersProcessed++; processFolders(folderIndex + 1)\<close>, the end of every branch of a
  folder's callbacks.\<close>

definition nextFolder :: "string list \<Rightarrow> cstate \<Rightarrow> cstate" where
  "nextFolder categories s =
     processFolders categories (folderIndex s + 1)
       (s\<lparr> foldersProcessed := foldersProcessed s + 1 \<rparr>)"

fun cleanup_step :: "string list \<Rightarrow> event \<Rightarrow> cstate \<Rightarrow> cstate" where
  "cleanup_step categories Ready s =
     (if phase s = AwaitReady then s\<lparr> phase := AwaitBoxes \<rparr> else s)"
| "cleanup_step categories (BoxesReply r) s =
     (if phase s = AwaitBoxes
      then (case r of
              Inl err \<Rightarrow> (closeAndReject err s)\<lparr> phase := Aborted \<rparr>
            | Inr bx \<Rightarrow> processCategory categories 0 (s\<lparr> boxTree := bx \<rparr>))
      else s)"
| "cleanup_step categories (OpenBoxReply r) s =
     (if phase s = AwaitOpenBox
      then (case r of
              Inl err \<Rightarrow> nextFolder categories s
            | Inr messagesTotal \<Rightarrow>
                (if messagesTotal = 0 then nextFolder categories s
                 else s\<lparr> phase := AwaitSearch \<rparr>))
      else s)"
| "cleanup_step categories (SearchReply r) s =
     (if phase s = AwaitSearch
      then (case r of
              Inl err \<Rightarrow> nextFolder categories s
            | Inr found \<Rightarrow>
                (if found = [] then nextFolder categories s
                 else s\<lparr> results := found, phase := AwaitAddFlags \<rparr>))
      else s)"
| "cleanup_step categories (AddFlagsReply r) s =
     (if phase s = AwaitAddFlags
      then (case r of
              Some err \<Rightarrow> nextFolder categories s
            | None \<Rightarrow> s\<lparr> phase := AwaitExpunge \<rparr>)
      else s)"
| "cleanup_step categories (ExpungeReply r) s =
     (if phase s = AwaitExpunge
      then (case r of
              Some err \<Rightarrow> nextFolder categories s
            | None \<Rightarrow>
                nextFolder categories
                  (s\<lparr> categoryTotalDeleted := categoryTotalDeleted s + length (results s) \<rparr>))
      else s)"
| "cleanup_step categories (TimerFires t) s =
     (if t \<in> timers s
      then (case t of
              OperationTimeout \<Rightarrow>
                s\<lparr> timers := timers s - {OperationTimeout},
                   endCalls := endCalls s + 1,
                   promise := reject cleanupTimeoutError (promise s) \<rparr>
            | ConnectionTimeout \<Rightarrow> s
            | ParseDelay \<Rightarrow> s)
      else s)"
| "cleanup_step categories (SessionError err) s =
     (if onError s
      then s\<lparr> onError := False,
              timers := timers s - {OperationTimeout},
              promise := reject err (promise s) \<rparr>
      else s)"
| "cleanup_step categories SessionEnd s =
     (if onEnd s
      then (let s' = s\<lparr> onEnd := False, timers := timers s - {OperationTimeout} \<rparr>
            in if processedCategories s' = length categories
               then s'\<lparr> promise := resolve (deletedCounts s') (promise s') \<rparr>
               else s')
      else s)"
| "cleanup_step categories (Message m) s = s"
| "cleanup_step categories (SaveCompletes k) s = s"
| "cleanup_step categories (FetchError err) s = s"
| "cleanup_step categories FetchEnd s = s"

text \<open>The state the executor leaves when it returns (lines 493-500 and 730-731): one
  timer, no connection-level one.\<close>

definition cleanup_init :: cstate where
  "cleanup_init =
     \<lparr> promise = Unsettled,
       timers = {OperationTimeout},
       endCalls = 0,
       onError = True,
       onEnd = True,
       phase = AwaitReady,
       boxTree = [],
       deletedCounts = [],
       processedCategories = 0,
       catIndex = 0,
       category = [],
       foldersToProcess = [],
       categoryTotalDeleted = 0,
       foldersProcessed = 0,
       folderIndex = 0,
       results = [] \<rparr>"

definition cleanup_run :: "string list \<Rightarrow> event list \<Rightarrow> cstate \<Rightarrow> cstate" where
  "cleanup_run categories es s = foldl (\<lambda>s e. cleanup_step categories e s) s es"

subsection \<open>The route \<^verbatim>\<open>DELETE /cleanup\<close>\<close>

definition defaultCategories :: "string list" where
  "defaultCategories =
     [''promotional'', ''social'', ''updates'', ''purchases'', ''spam'', ''trash'', ''noreply'']"

text \<open>\<^verbatim>\<open>categories || [...]\<close> on the list of the request body, which may be missing.\<close>

definition categoriesToDelete :: "string list option \<Rightarrow> string list" where
  "categoriesToDelete requested =
     (case requested of None \<Rightarrow> defaultCategories | Some categories \<Rightarrow> categories)"


section \<open>Complete runs of a cleanup: the server's replies and the expected tally\<close>

text \<open>
  The replies the server gives to the four commands of one folder visit. A visit ends at
  the first failure (or at an empty folder or an empty search), so the events of a visit
  are a prefix of open, search, flag, expunge. \<open>folderCount\<close> is what the description of
  the cleanup credits to the visit: the number of matches when all four commands
  succeeded, and nothing otherwise.
\<close>

record folder_replies =
  openReply :: "jserror + nat"
  searchReply :: "jserror + nat list"
  addFlagsReply :: "jserror option"
  expungeReply :: "jserror option"

definition opened :: "folder_replies \<Rightarrow> bool" where
  "opened r = (case openReply r of Inl err \<Rightarrow> False | Inr n \<Rightarrow> n \<noteq> 0)"

definition matches :: "folder_replies \<Rightarrow> nat list" where
  "matches r = (case searchReply r of Inl err \<Rightarrow> [] | Inr found \<Rightarrow> found)"

definition folderEvents :: "folder_replies \<Rightarrow> event list" where
  "folderEvents r =
     OpenBoxReply (openReply r) #
     (if opened r then
        SearchReply (searchReply r) #
        (if matches r \<noteq> [] then
           AddFlagsReply (addFlagsReply r) #
           (if addFlagsReply r = None then [ExpungeReply (expungeReply r)] else [])
         else [])
      else [])"


definition folderCount :: "folder_replies \<Rightarrow> nat" where
  "folderCount r =
     (if opened r \<and> matches r \<noteq> [] \<and> addFlagsReply r = None \<and> expungeReply r = None
      then length (matches r) else 0)"








text \<open>The state in which the callbacks of a folder hand over to \<open>nextFolder\<close>.\<close>

definition afterFolder :: "folder_replies \<Rightarrow> cstate \<Rightarrow> cstate" where
  "afterFolder r s =
     (if \<not> opened r then s
      else if matches r = [] then s\<lparr> phase := AwaitSearch \<rparr>
      else if addFlagsReply r \<noteq> None then s\<lparr> results := matches r, phase := AwaitAddFlags \<rparr>
      else if expungeReply r \<noteq> None then s\<lparr> results := matches r, phase := AwaitExpunge \<rparr>
      else s\<lparr> results := matches r, phase := AwaitExpunge,
              categoryTotalDeleted := categoryTotalDeleted s + length (matches r) \<rparr>)"



section \<open>Invariants of the two machines\<close>

definition no_timer :: "timer set \<Rightarrow> bool" where
  "no_timer T = (ConnectionTimeout \<notin> T \<and> OperationTimeout \<notin> T \<and> ParseDelay \<notin> T)"


definition timeout_error :: "jserror \<Rightarrow> bool" where
  "timeout_error e =
     (e = operationTimeoutError \<or> e = connectionTimeoutError \<or> e = cleanupTimeoutError)"

text \<open>
  What holds of a fetch in every reachable state: the connection timer is armed only
  before \<^verbatim>\<open>ready\<close>, the grace timer only in \<open>Grace\<close>; while a timer is armed the promise is
  unsettled or was rejected by the other timer; and while the promise is unsettled
  \<^verbatim>\<open>imap.end()\<close> has not been called, or was called once by the grace timer.
\<close>

definition fetch_inv :: "fstate \<Rightarrow> bool" where
  "fetch_inv s =
     ((ConnectionTimeout \<in> timers s \<longrightarrow> phase s = AwaitReady) \<and>
      (phase s = AwaitReady \<longrightarrow> \<not> fetchCompleted s) \<and>
      (ParseDelay \<in> timers s \<longrightarrow> phase s = Grace) \<and>
      (OperationTimeout \<in> timers s \<longrightarrow>
         promise s = Unsettled \<or> promise s = Rejected connectionTimeoutError) \<and>
      (ConnectionTimeout \<in> timers s \<longrightarrow>
         promise s = Unsettled \<or> promise s = Rejected operationTimeoutError) \<and>
      (promise s = Unsettled \<longrightarrow>
         endCalls s = 0 \<or> endCalls s = 1 \<and> phase s = Finished \<and> no_timer (timers s)))"

definition cleanup_inv :: "cstate \<Rightarrow> bool" where
  "cleanup_inv s =
     (timers s \<subseteq> {OperationTimeout} \<and>
      (OperationTimeout \<in> timers s \<longrightarrow> promise s = Unsettled) \<and>
      (promise s = Unsettled \<longrightarrow>
         endCalls s = 0 \<or> endCalls s = 1 \<and> phase s = Finished \<and> timers s = {}))"

text \<open>A step of the chain of a cleanup: it leaves the promise and the session listeners
  alone, and calls \<^verbatim>\<open>imap.end()\<close> exactly when it reaches \<open>Finished\<close>.\<close>

definition chain_moved :: "cstate \<Rightarrow> cstate \<Rightarrow> bool" where
  "chain_moved s s' =
     (promise s' = promise s \<and> onError s' = onError s \<and> onEnd s' = onEnd s \<and>
      (phase s' = Finished \<and> endCalls s' = endCalls s + 1 \<and>
         timers s' = timers s - {OperationTimeout}
       \<or> phase s' \<in> {Thrown, AwaitOpenBox, AwaitSearch, AwaitAddFlags, AwaitExpunge} \<and>
         endCalls s' = endCalls s \<and> timers s' = timers s))"

text \<open>
  The key of a stored message, and the invariant of the store: among the records that
  carry a message identifier, no two have the same owner and identifier.
\<close>

definition key :: "email \<Rightarrow> nat \<times> string option" where
  "key e = (userId e, messageId e)"



section \<open>Sample inputs\<close>

definition sample_cfg :: fetch_cfg where
  "sample_cfg = \<lparr> owner = 1, limit = 10, clock = 0 \<rparr>"



definition sample_boxes :: boxes where
  "sample_boxes =
     [(''INBOX'', Box None),
      (''[Gmail]'', Box (Some [(''Spam'', Box None), (''Promotions'', Box None)]))]"


definition deleted :: "nat list \<Rightarrow> folder_replies" where
  "deleted found =
     \<lparr> openReply = Inr (length found), searchReply = Inr found,
       addFlagsReply = None, expungeReply = None \<rparr>"

definition expunge_fails :: "nat list \<Rightarrow> folder_replies" where
  "expunge_fails found =
     \<lparr> openReply = Inr (length found), searchReply = Inr found,
       addFlagsReply = None, expungeReply = Some (JsError None ''expunge failed'') \<rparr>"




definition bad :: jserror where "bad = JsError None ''NO''"

definition spam_open :: cstate where
  "spam_open = cleanup_run [''spam''] [Ready, BoxesReply (Inr sample_boxes)] cleanup_init"
definition spam_search :: cstate where
  "spam_search = cleanup_step [''spam''] (OpenBoxReply (Inr 3)) spam_open"
definition spam_flags :: cstate where
  "spam_flags = cleanup_step [''spam''] (SearchReply (Inr [1, 2, 3])) spam_search"
definition spam_expunge :: cstate where
  "spam_expunge = cleanup_step [''spam''] (AddFlagsReply None) spam_flags"
definition promo_open :: cstate where
  "promo_open = cleanup_run [''promotional''] [Ready, BoxesReply (Inr sample_boxes)] cleanup_init"






declare processCategory.simps [simp del]

section \<open>Basic facts\<close>

lemma reject_simps [simp]:
  "reject e Unsettled = Rejected e"
  "reject e (Rejected d) = Rejected d"
  "reject e (Resolved v) = Resolved v"
  "reject e p \<noteq> Unsettled"
  by (simp_all add: reject_def split: promise.splits)

lemma resolve_simps [simp]:
  "resolve v Unsettled = Resolved v"
  "resolve v (Rejected d) = Rejected d"
  "resolve v (Resolved w) = Resolved w"
  "resolve v p \<noteq> Unsettled"
  by (simp_all add: resolve_def split: promise.splits)


lemma fetch_run_Nil: "fetch_run cfg [] s = s"
  by (simp add: fetch_run_def)

lemma fetch_run_Cons: "fetch_run cfg (e # es) s = fetch_run cfg es (fetch_step cfg e s)"
  by (simp add: fetch_run_def)



lemma cleanup_run_Cons:
  "cleanup_run cats (e # es) s = cleanup_run cats es (cleanup_step cats e s)"
  by (simp add: cleanup_run_def)

lemma cleanup_run_Nil: "cleanup_run cats [] s = s"
  by (simp add: cleanup_run_def)

section \<open>The slice of the search result (claim C2)\<close>

lemma slice_from_tail:
  "0 < l \<Longrightarrow> l < length xs \<Longrightarrow> slice_from (- int l) xs = drop (length xs - l) xs"
  by (simp add: slice_from_def Let_def nat_diff_distrib' max_def)

text \<open>
  With a limit between 1 and the number of matches, the fetch asks the server for the
  tail of the search result: the \<open>limit\<close> most recent matches.
\<close>

lemma fetch_requests_tail:
  assumes "phase s = AwaitSearch" and "0 < limit cfg" and "limit cfg < length found"
  shows "emailsToFetch (fetch_step cfg (SearchReply (Inr found)) s)
         = drop (length found - limit cfg) found"
  using assms by (auto simp: slice_from_tail)

text \<open>
  C2. The claim: with \<open>N\<close> matches and a limit \<open>L < N\<close> the pipeline processes exactly the
  last \<open>L\<close> matches. A limit of \<open>0\<close> is below every \<open>N > 0\<close>, and there
  \<^verbatim>\<open>results.slice(-limit)\<close> is \<^verbatim>\<open>results.slice(0)\<close>: with three matches and limit \<open>0\<close> the
  fetch asks for all three, not for none.
\<close>

theorem fetch_limit_zero_requests_every_match:
  "emailsToFetch
     (fetch_run \<lparr> owner = 1, limit = 0, clock = 0 \<rparr>
        [Ready, OpenBoxReply (Inr 3), SearchReply (Inr [1, 2, 3])] (fetch_init []))
   = [1, 2, 3]"
  by (simp add: fetch_run_def fetch_init_def slice_from_def)

section \<open>The chain of a cleanup\<close>

lemma processCategory_done:
  "length cats \<le> i \<Longrightarrow>
   processCategory cats i s =
     s\<lparr> timers := timers s - {OperationTimeout}, endCalls := endCalls s + 1, phase := Finished \<rparr>"
  by (subst processCategory.simps) simp

lemma processCategory_missing:
  "i < length cats \<Longrightarrow> categoryConfig (cats ! i) = Missing \<Longrightarrow>
   processCategory cats i s =
     processCategory cats (i + 1)
       (s\<lparr> deletedCounts := setCount (cats ! i) 0 (deletedCounts s),
           processedCategories := processedCategories s + 1 \<rparr>)"
  by (subst processCategory.simps) simp

lemma processCategory_inherited:
  "i < length cats \<Longrightarrow> categoryConfig (cats ! i) = Inherited \<Longrightarrow>
   processCategory cats i s = s\<lparr> phase := Thrown \<rparr>"
  by (subst processCategory.simps) simp

lemma processCategory_no_folder:
  "i < length cats \<Longrightarrow> categoryConfig (cats ! i) = Own c \<Longrightarrow>
   resolveFolders (boxTree s) c = [] \<Longrightarrow>
   processCategory cats i s =
     processCategory cats (i + 1)
       (s\<lparr> deletedCounts := setCount (cats ! i) 0 (deletedCounts s),
           processedCategories := processedCategories s + 1 \<rparr>)"
  by (subst processCategory.simps) simp

lemma processCategory_folders:
  "i < length cats \<Longrightarrow> categoryConfig (cats ! i) = Own c \<Longrightarrow>
   resolveFolders (boxTree s) c \<noteq> [] \<Longrightarrow>
   processCategory cats i s =
     s\<lparr> catIndex := i,
        category := cats ! i,
        foldersToProcess := resolveFolders (boxTree s) c,
        categoryTotalDeleted := 0,
        foldersProcessed := 0,
        folderIndex := 0,
        phase := AwaitOpenBox \<rparr>"
  by (subst processCategory.simps) simp

lemma processCategory_session:
  "promise (processCategory cats i s) = promise s \<and>
   onError (processCategory cats i s) = onError s \<and>
   onEnd (processCategory cats i s) = onEnd s \<and>
   (phase (processCategory cats i s) = Finished \<and>
      endCalls (processCategory cats i s) = endCalls s + 1 \<and>
      timers (processCategory cats i s) = timers s - {OperationTimeout}
    \<or> phase (processCategory cats i s) \<in> {Thrown, AwaitOpenBox} \<and>
      endCalls (processCategory cats i s) = endCalls s \<and>
      timers (processCategory cats i s) = timers s)"
proof (induction cats i s rule: processCategory.induct)
  case (1 categories i s)
  show ?case
  proof (cases "length categories \<le> i")
    case True
    then show ?thesis by (simp add: processCategory_done)
  next
    case False
    then have lt: "i < length categories" by simp
    show ?thesis
    proof (cases "categoryConfig (categories ! i)")
      case (Own c)
      show ?thesis
      proof (cases "resolveFolders (boxTree s) c = []")
        case True
        with "1.IH"(1)[OF False Own True] show ?thesis
          by (simp add: processCategory_no_folder[OF lt Own True])
      next
        case nonempty: False
        show ?thesis by (simp add: processCategory_folders[OF lt Own nonempty])
      qed
    next
      case Inherited
      show ?thesis by (simp add: processCategory_inherited[OF lt Inherited])
    next
      case Missing
      with "1.IH"(2)[OF False Missing] show ?thesis
        by (simp add: processCategory_missing[OF lt Missing])
    qed
  qed
qed

lemma processFolders_session:
  "promise (processFolders cats j s) = promise s \<and>
   onError (processFolders cats j s) = onError s \<and>
   onEnd (processFolders cats j s) = onEnd s \<and>
   (phase (processFolders cats j s) = Finished \<and>
      endCalls (processFolders cats j s) = endCalls s + 1 \<and>
      timers (processFolders cats j s) = timers s - {OperationTimeout}
    \<or> phase (processFolders cats j s) \<in> {Thrown, AwaitOpenBox} \<and>
      endCalls (processFolders cats j s) = endCalls s \<and>
      timers (processFolders cats j s) = timers s)"
proof (cases "length (foldersToProcess s) \<le> j")
  case True
  then show ?thesis
    using processCategory_session[of cats "catIndex s + 1"
        "s\<lparr> deletedCounts := setCount (category s) (categoryTotalDeleted s) (deletedCounts s),
            processedCategories := processedCategories s + 1 \<rparr>"]
    by (simp add: processFolders_def)
next
  case False
  then show ?thesis by (simp add: processFolders_def)
qed

lemma nextFolder_session:
  "promise (nextFolder cats s) = promise s \<and>
   onError (nextFolder cats s) = onError s \<and>
   onEnd (nextFolder cats s) = onEnd s \<and>
   (phase (nextFolder cats s) = Finished \<and>
      endCalls (nextFolder cats s) = endCalls s + 1 \<and>
      timers (nextFolder cats s) = timers s - {OperationTimeout}
    \<or> phase (nextFolder cats s) \<in> {Thrown, AwaitOpenBox} \<and>
      endCalls (nextFolder cats s) = endCalls s \<and>
      timers (nextFolder cats s) = timers s)"
  using processFolders_session[of cats "folderIndex s + 1" "s\<lparr> foldersProcessed := foldersProcessed s + 1 \<rparr>"]
  by (simp add: nextFolder_def)

section \<open>Invariants hold in every reachable state\<close>

lemma fetch_inv_init: "fetch_inv (fetch_init st)"
  by (simp add: fetch_inv_def fetch_init_def)

lemma checkParsed_session [simp]:
  "promise (checkParsed cfg p s) = promise s"
  "timers (checkParsed cfg p s) = timers s"
  "endCalls (checkParsed cfg p s) = endCalls s"
  "phase (checkParsed cfg p s) = phase s"
  "onError (checkParsed cfg p s) = onError s"
  "onEnd (checkParsed cfg p s) = onEnd s"
  "fetchCompleted (checkParsed cfg p s) = fetchCompleted s"
  by (simp_all add: checkParsed_def split: option.splits)

lemma completeSave_session [simp]:
  "promise (completeSave k s) = promise s"
  "timers (completeSave k s) = timers s"
  "endCalls (completeSave k s) = endCalls s"
  "phase (completeSave k s) = phase s"
  "onError (completeSave k s) = onError s"
  "onEnd (completeSave k s) = onEnd s"
  "fetchCompleted (completeSave k s) = fetchCompleted s"
  by (simp_all add: completeSave_def split: sum.splits)

lemma fetch_inv_step: "fetch_inv s \<Longrightarrow> fetch_inv (fetch_step cfg e s)"
proof (cases e)
  case Ready then show "fetch_inv s \<Longrightarrow> ?thesis" by (auto simp: fetch_inv_def no_timer_def)
next
  case (SessionError err) then show "fetch_inv s \<Longrightarrow> ?thesis"
    by (cases "promise s") (auto simp: fetch_inv_def no_timer_def)
next
  case SessionEnd then show "fetch_inv s \<Longrightarrow> ?thesis"
    by (cases "promise s") (auto simp: fetch_inv_def no_timer_def Let_def)
next
  case (TimerFires t) then show "fetch_inv s \<Longrightarrow> ?thesis"
    by (cases t; cases "promise s") (auto simp: fetch_inv_def no_timer_def)
next
  case (OpenBoxReply r) then show "fetch_inv s \<Longrightarrow> ?thesis"
    by (cases r; cases "promise s") (auto simp: fetch_inv_def no_timer_def closeAndReject_def)
next
  case (SearchReply r) then show "fetch_inv s \<Longrightarrow> ?thesis"
    by (cases r; cases "promise s") (auto simp: fetch_inv_def no_timer_def closeAndReject_def)
next
  case (Message m) then show "fetch_inv s \<Longrightarrow> ?thesis"
    by (cases m) (auto simp: fetch_inv_def fetching_def)
next
  case (SaveCompletes k) then show "fetch_inv s \<Longrightarrow> ?thesis"
    by (auto simp: fetch_inv_def)
next
  case (FetchError err) then show "fetch_inv s \<Longrightarrow> ?thesis"
    by (cases "promise s") (auto simp: fetch_inv_def no_timer_def closeAndReject_def)
next
  case FetchEnd then show "fetch_inv s \<Longrightarrow> ?thesis"
    by (auto simp: fetch_inv_def no_timer_def)
qed simp_all

lemma fetch_inv_run: "fetch_inv s \<Longrightarrow> fetch_inv (fetch_run cfg es s)"
  unfolding fetch_run_def
  by (induction es arbitrary: s) (simp_all add: fetch_inv_step)

lemma chain_moved_inv:
  assumes "cleanup_inv s" and "chain_moved s s'" and "phase s \<noteq> Finished"
  shows "cleanup_inv s'"
  using assms unfolding cleanup_inv_def chain_moved_def by auto

lemma cleanup_inv_init: "cleanup_inv cleanup_init"
  by (simp add: cleanup_inv_def cleanup_init_def)

lemma cleanup_inv_step: "cleanup_inv s \<Longrightarrow> cleanup_inv (cleanup_step cats e s)"
proof (cases e)
  case Ready then show "cleanup_inv s \<Longrightarrow> ?thesis" by (auto simp: cleanup_inv_def)
next
  case (SessionError err) then show "cleanup_inv s \<Longrightarrow> ?thesis"
    by (auto simp: cleanup_inv_def reject_def split: promise.splits)
next
  case SessionEnd then show "cleanup_inv s \<Longrightarrow> ?thesis"
    by (auto simp: cleanup_inv_def resolve_def Let_def split: promise.splits)
next
  case (TimerFires t) then show "cleanup_inv s \<Longrightarrow> ?thesis"
    by (cases t) (auto simp: cleanup_inv_def reject_def split: promise.splits)
next
  case (BoxesReply r)
  assume inv: "cleanup_inv s"
  show ?thesis
  proof (cases "phase s = AwaitBoxes")
    case True
    show ?thesis
    proof (cases r)
      case (Inl err)
      with True BoxesReply inv show ?thesis
        by (auto simp: cleanup_inv_def closeAndReject_def reject_def split: promise.splits)
    next
      case (Inr bx)
      have "chain_moved s (processCategory cats 0 (s\<lparr>boxTree := bx\<rparr>))"
        using processCategory_session[of cats 0 "s\<lparr>boxTree := bx\<rparr>"]
        by (auto simp: chain_moved_def)
      with True BoxesReply Inr inv show ?thesis
        by (auto intro: chain_moved_inv)
    qed
  next
    case False
    with BoxesReply inv show ?thesis by simp
  qed
next
  case (OpenBoxReply r)
  assume inv: "cleanup_inv s"
  have "chain_moved s (nextFolder cats s)"
    using nextFolder_session[of cats s] by (auto simp: chain_moved_def)
  moreover have "phase s = AwaitOpenBox \<Longrightarrow> chain_moved s (s\<lparr>phase := AwaitSearch\<rparr>)"
    by (simp add: chain_moved_def)
  ultimately show ?thesis using OpenBoxReply inv
    by (cases r) (auto intro: chain_moved_inv)
next
  case (SearchReply r)
  assume inv: "cleanup_inv s"
  have "chain_moved s (nextFolder cats s)"
    using nextFolder_session[of cats s] by (auto simp: chain_moved_def)
  moreover have "\<And>f. chain_moved s (s\<lparr>results := f, phase := AwaitAddFlags\<rparr>)"
    by (simp add: chain_moved_def)
  ultimately show ?thesis using SearchReply inv
    by (cases r) (auto intro: chain_moved_inv)
next
  case (AddFlagsReply r)
  assume inv: "cleanup_inv s"
  have "chain_moved s (nextFolder cats s)"
    using nextFolder_session[of cats s] by (auto simp: chain_moved_def)
  moreover have "chain_moved s (s\<lparr>phase := AwaitExpunge\<rparr>)"
    by (simp add: chain_moved_def)
  ultimately show ?thesis using AddFlagsReply inv
    by (cases r) (auto intro: chain_moved_inv)
next
  case (ExpungeReply r)
  assume inv: "cleanup_inv s"
  have "chain_moved s (nextFolder cats s)"
    using nextFolder_session[of cats s] by (auto simp: chain_moved_def)
  moreover have "chain_moved s
      (nextFolder cats (s\<lparr>categoryTotalDeleted := categoryTotalDeleted s + length (results s)\<rparr>))"
    using nextFolder_session[of cats "s\<lparr>categoryTotalDeleted := categoryTotalDeleted s + length (results s)\<rparr>"]
    by (auto simp: chain_moved_def)
  ultimately show ?thesis using ExpungeReply inv
    by (cases r) (auto intro: chain_moved_inv)
qed simp_all

lemma cleanup_inv_run: "cleanup_inv s \<Longrightarrow> cleanup_inv (cleanup_run cats es s)"
  unfolding cleanup_run_def
  by (induction es arbitrary: s) (simp_all add: cleanup_inv_step)



section \<open>The store during a fetch\<close>


lemma save_Inr: "save e st = Inr d \<Longrightarrow> d = st @ [e]"
  by (auto simp: save_def split: if_splits)

lemma save_Inr_iff: "save e st = Inr (st @ [e]) \<longleftrightarrow> required_ok e \<and> unique_ok e st"
  by (auto simp: save_def)

lemma save_Inl_iff: "(\<exists>err. save e st = Inl err) \<longleftrightarrow> \<not> (required_ok e \<and> unique_ok e st)"
  by (auto simp: save_def)


lemma newEmail_fields [simp]:
  "userId (newEmail u now p) = u"
  "messageId (newEmail u now p) = Some (p_messageId p)"
  "status (newEmail u now p) = pending"
  "key (newEmail u now p) = (u, Some (p_messageId p))"
  by (simp_all add: newEmail_def key_def)













section \<open>Complete runs of a cleanup\<close>

lemma folder_run:
  assumes "phase s = AwaitOpenBox"
  shows "cleanup_run cats (folderEvents r) s = nextFolder cats (afterFolder r s)"
proof (cases "openReply r")
  case (Inl err)
  with assms show ?thesis
    by (simp add: folderEvents_def opened_def afterFolder_def cleanup_run_Cons cleanup_run_Nil)
next
  case open_ok: (Inr n)
  show ?thesis
  proof (cases "n = 0")
    case True
    with assms open_ok show ?thesis
      by (simp add: folderEvents_def opened_def afterFolder_def cleanup_run_Cons cleanup_run_Nil)
  next
    case nz: False
    show ?thesis
    proof (cases "searchReply r")
      case (Inl err)
      with assms open_ok nz show ?thesis
        by (simp add: folderEvents_def opened_def matches_def afterFolder_def
            cleanup_run_Cons cleanup_run_Nil)
    next
      case search_ok: (Inr found)
      show ?thesis
      proof (cases "found = []")
        case True
        with assms open_ok nz search_ok show ?thesis
          by (simp add: folderEvents_def opened_def matches_def afterFolder_def
              cleanup_run_Cons cleanup_run_Nil)
      next
        case ne: False
        show ?thesis
        proof (cases "addFlagsReply r")
          case (Some err)
          with assms open_ok nz search_ok ne show ?thesis
            by (simp add: folderEvents_def opened_def matches_def afterFolder_def
                cleanup_run_Cons cleanup_run_Nil)
        next
          case flags_ok: None
          with assms open_ok nz search_ok ne show ?thesis
            by (cases "expungeReply r")
               (simp_all add: folderEvents_def opened_def matches_def afterFolder_def
                cleanup_run_Cons cleanup_run_Nil)
        qed
      qed
    qed
  qed
qed

lemma afterFolder_fields [simp]:
  "boxTree (afterFolder r s) = boxTree s"
  "deletedCounts (afterFolder r s) = deletedCounts s"
  "processedCategories (afterFolder r s) = processedCategories s"
  "catIndex (afterFolder r s) = catIndex s"
  "category (afterFolder r s) = category s"
  "foldersToProcess (afterFolder r s) = foldersToProcess s"
  "folderIndex (afterFolder r s) = folderIndex s"
  "promise (afterFolder r s) = promise s"
  "timers (afterFolder r s) = timers s"
  "endCalls (afterFolder r s) = endCalls s"
  "onError (afterFolder r s) = onError s"
  "onEnd (afterFolder r s) = onEnd s"
  "categoryTotalDeleted (afterFolder r s) = categoryTotalDeleted s + folderCount r"
  by (auto simp: afterFolder_def folderCount_def)











section \<open>The expected tally\<close>
















section \<open>Claims about the cleanup and the store\<close>






lemma processCategory_total:
  "categoryTotalDeleted (processCategory cats i s) = categoryTotalDeleted s \<or>
   categoryTotalDeleted (processCategory cats i s) = 0"
proof (induction cats i s rule: processCategory.induct)
  case (1 categories i s)
  show ?case
  proof (cases "length categories \<le> i")
    case True
    then show ?thesis by (simp add: processCategory_done)
  next
    case False
    then have lt: "i < length categories" by simp
    show ?thesis
    proof (cases "categoryConfig (categories ! i)")
      case (Own c)
      show ?thesis
      proof (cases "resolveFolders (boxTree s) c = []")
        case True
        with "1.IH"(1)[OF False Own True] show ?thesis
          by (simp add: processCategory_no_folder[OF lt Own True])
      next
        case nonempty: False
        show ?thesis by (simp add: processCategory_folders[OF lt Own nonempty])
      qed
    next
      case Inherited
      show ?thesis by (simp add: processCategory_inherited[OF lt Inherited])
    next
      case Missing
      with "1.IH"(2)[OF False Missing] show ?thesis
        by (simp add: processCategory_missing[OF lt Missing])
    qed
  qed
qed

lemma nextFolder_total:
  "categoryTotalDeleted (nextFolder cats s) = categoryTotalDeleted s \<or>
   categoryTotalDeleted (nextFolder cats s) = 0"
  using processCategory_total[of cats "catIndex s + 1"
      "s\<lparr> foldersProcessed := foldersProcessed s + 1,
         deletedCounts := setCount (category s) (categoryTotalDeleted s) (deletedCounts s),
         processedCategories := processedCategories s + 1 \<rparr>"]
  by (auto simp: nextFolder_def processFolders_def)

lemma total_grows_only_at_expunge:
  assumes "categoryTotalDeleted s < categoryTotalDeleted (cleanup_step cats e s)"
  shows "phase s = AwaitExpunge \<and> e = ExpungeReply None"
proof (cases e)
  case (BoxesReply r)
  show ?thesis
  proof (cases r)
    case (Inl err)
    with assms BoxesReply show ?thesis
      by (auto simp: closeAndReject_def split: if_splits)
  next
    case (Inr b)
    with assms BoxesReply processCategory_total[of cats 0 "s\<lparr>boxTree := b\<rparr>"]
    show ?thesis by (auto split: if_splits)
  qed
next
  case (OpenBoxReply r)
  with assms nextFolder_total[of cats s] show ?thesis
    by (cases r) (auto split: if_splits)
next
  case (SearchReply r)
  with assms nextFolder_total[of cats s] show ?thesis
    by (cases r) (auto split: if_splits)
next
  case (AddFlagsReply r)
  with assms nextFolder_total[of cats s] show ?thesis
    by (cases r) (auto split: if_splits)
next
  case (ExpungeReply r)
  with assms nextFolder_total[of cats s] show ?thesis
    by (cases r) (auto split: if_splits)
next
  case (TimerFires t)
  with assms show ?thesis by (cases t) (auto split: if_splits)
next
  case SessionEnd
  with assms show ?thesis by (auto simp: Let_def split: if_splits)
qed (use assms in \<open>auto split: if_splits\<close>)

text \<open>
  C6. In \<open>AwaitExpunge\<close> the messages are flagged. A failed expunge hands the folder over
  with the category's count as it was; a successful one adds the number of matches first.
  No other step of the machine makes the count grow, so a visit credits its matches only
  when both the flagging and the expunge succeeded.
\<close>

theorem count_credited_after_expunge:
  "(phase s = AwaitAddFlags \<longrightarrow>
      cleanup_step cats (AddFlagsReply None) s = s\<lparr> phase := AwaitExpunge \<rparr>)
   \<and> (phase s = AwaitExpunge \<longrightarrow>
        cleanup_step cats (ExpungeReply (Some err)) s = nextFolder cats s
        \<and> cleanup_step cats (ExpungeReply None) s =
            nextFolder cats
              (s\<lparr> categoryTotalDeleted := categoryTotalDeleted s + length (results s) \<rparr>))
   \<and> (categoryTotalDeleted s < categoryTotalDeleted (cleanup_step cats e s) \<longrightarrow>
        phase s = AwaitExpunge \<and> e = ExpungeReply None)
   \<and> (phase s = AwaitOpenBox \<longrightarrow>
        cleanup_run cats (folderEvents r) s = nextFolder cats (afterFolder r s)
        \<and> categoryTotalDeleted (afterFolder r s) = categoryTotalDeleted s + folderCount r)
   \<and> (expungeReply r \<noteq> None \<longrightarrow> folderCount r = 0)
   \<and> (folderCount r \<noteq> 0 \<longrightarrow>
        addFlagsReply r = None \<and> expungeReply r = None \<and> folderCount r = length (matches r))"
  using total_grows_only_at_expunge[of s cats e] folder_run[of s cats r]
  by (auto simp: folderCount_def)

theorem count_credited_after_expunge_witness:
  "phase spam_flags = AwaitAddFlags
   \<and> categoryTotalDeleted (cleanup_step [''spam''] (AddFlagsReply None) spam_flags) = 0
   \<and> phase spam_expunge = AwaitExpunge
   \<and> deletedCounts (cleanup_step [''spam''] (ExpungeReply (Some bad)) spam_expunge)
       = [(''spam'', 0)]
   \<and> deletedCounts (cleanup_step [''spam''] (ExpungeReply None) spam_expunge) = [(''spam'', 3)]
   \<and> phase promo_open = AwaitOpenBox
   \<and> categoryTotalDeleted promo_open
       < categoryTotalDeleted
           (cleanup_run [''promotional''] (folderEvents (deleted [1, 2, 3])) promo_open)
   \<and> categoryTotalDeleted
        (cleanup_run [''promotional''] (folderEvents (expunge_fails [1, 2, 3])) promo_open) = 0
   \<and> expungeReply (expunge_fails [1, 2, 3]) \<noteq> None
   \<and> folderCount (expunge_fails [1, 2, 3]) = 0
   \<and> folderCount (deleted [1, 2, 3]) \<noteq> 0
   \<and> expungeReply (deleted [1, 2, 3]) = None"
proof -
  have p3: "phase spam_flags = AwaitAddFlags" and p4: "phase spam_expunge = AwaitExpunge"
    and p1: "phase promo_open = AwaitOpenBox"
    by code_simp+
  have a0: "categoryTotalDeleted (spam_flags\<lparr> phase := AwaitExpunge \<rparr>) = 0" by code_simp
  have n1: "deletedCounts (nextFolder [''spam''] spam_expunge) = [(''spam'', 0)]"
    and n2: "deletedCounts (nextFolder [''spam'']
        (spam_expunge\<lparr> categoryTotalDeleted :=
            categoryTotalDeleted spam_expunge + length (results spam_expunge) \<rparr>))
        = [(''spam'', 3)]"
    by code_simp+
  have q1: "categoryTotalDeleted promo_open
       < categoryTotalDeleted (nextFolder [''promotional''] (afterFolder (deleted [1, 2, 3]) promo_open))"
    and q2: "categoryTotalDeleted
        (nextFolder [''promotional''] (afterFolder (expunge_fails [1, 2, 3]) promo_open)) = 0"
    by code_simp+
  have e1: "expungeReply (expunge_fails [1, 2, 3]) \<noteq> None"
    and e2: "folderCount (deleted [1, 2, 3]) \<noteq> 0"
    by code_simp+
  note A = count_credited_after_expunge[of spam_flags "[''spam'']" bad "AddFlagsReply None"
      "expunge_fails [1, 2, 3]"]
  note B = count_credited_after_expunge[of spam_expunge "[''spam'']" bad "ExpungeReply None"
      "expunge_fails [1, 2, 3]"]
  note C = count_credited_after_expunge[of promo_open "[''promotional'']" bad "ExpungeReply None"
      "deleted [1, 2, 3]"]
  note D = count_credited_after_expunge[of promo_open "[''promotional'']" bad "ExpungeReply None"
      "expunge_fails [1, 2, 3]"]
  from A p3 a0 have r1: "categoryTotalDeleted (cleanup_step [''spam''] (AddFlagsReply None) spam_flags) = 0"
    by simp
  from B p4 n1 n2
  have r2: "deletedCounts (cleanup_step [''spam''] (ExpungeReply (Some bad)) spam_expunge)
       = [(''spam'', 0)]"
    and r3: "deletedCounts (cleanup_step [''spam''] (ExpungeReply None) spam_expunge)
       = [(''spam'', 3)]"
    by simp_all
  from C p1 q1 have r4: "categoryTotalDeleted promo_open
       < categoryTotalDeleted
           (cleanup_run [''promotional''] (folderEvents (deleted [1, 2, 3])) promo_open)"
    by simp
  from D p1 q2 have r5: "categoryTotalDeleted
        (cleanup_run [''promotional''] (folderEvents (expunge_fails [1, 2, 3])) promo_open) = 0"
    by simp
  from D e1 have r6: "folderCount (expunge_fails [1, 2, 3]) = 0" by blast
  from C e2 have r7: "expungeReply (deleted [1, 2, 3]) = None" by blast
  from p3 p4 p1 r1 r2 r3 r4 r5 r6 r7 e1 e2 show ?thesis by blast
qed















text \<open>
  C7. When the session ends before the chain is complete, the \<^verbatim>\<open>end\<close> handler clears the
  operation timer and settles nothing: after \<^verbatim>\<open>ready\<close> and \<^verbatim>\<open>end\<close> the promise of a fetch
  and of a cleanup is unsettled, no timer is armed and the \<^verbatim>\<open>end\<close> listener is gone.
\<close>

theorem session_end_before_completion_leaves_promise_unsettled:
  "promise (fetch_run sample_cfg [Ready, SessionEnd] (fetch_init [])) = Unsettled
   \<and> timers (fetch_run sample_cfg [Ready, SessionEnd] (fetch_init [])) = {}
   \<and> \<not> onEnd (fetch_run sample_cfg [Ready, SessionEnd] (fetch_init []))
   \<and> promise (cleanup_run [''spam''] [Ready, SessionEnd] cleanup_init) = Unsettled
   \<and> timers (cleanup_run [''spam''] [Ready, SessionEnd] cleanup_init) = {}
   \<and> \<not> onEnd (cleanup_run [''spam''] [Ready, SessionEnd] cleanup_init)"
  by (auto simp: fetch_run_def fetch_init_def cleanup_run_def cleanup_init_def Let_def)

lemma missing_category_is_skipped:
  assumes "i < length cats" and "categoryConfig (cats ! i) = Missing"
  shows "processCategory cats i s =
           processCategory cats (i + 1)
             (s\<lparr> deletedCounts := setCount (cats ! i) 0 (deletedCounts s),
                 processedCategories := processedCategories s + 1 \<rparr>)"
  using assms by (rule processCategory_missing)

text \<open>
  C10. \<^verbatim>\<open>constructor\<close> is not a key of the table, but \<^verbatim>\<open>categoryMap['constructor']\<close> is
  the function \<^verbatim>\<open>Object\<close>, which is truthy: the check for an unknown category lets it
  pass, and the loop over its missing \<^verbatim>\<open>folders\<close> raises. The category gets no entry and
  the next category is never reached.
\<close>

theorem inherited_category_name_is_not_skipped:
  "map_of categoryMap ''constructor'' = None
   \<and> phase (cleanup_run [''constructor'', ''spam'']
              [Ready, BoxesReply (Inr sample_boxes)] cleanup_init) = Thrown
   \<and> deletedCounts (cleanup_run [''constructor'', ''spam'']
              [Ready, BoxesReply (Inr sample_boxes)] cleanup_init) = []
   \<and> processedCategories (cleanup_run [''constructor'', ''spam'']
              [Ready, BoxesReply (Inr sample_boxes)] cleanup_init) = 0
   \<and> promise (cleanup_run [''constructor'', ''spam'']
              [Ready, BoxesReply (Inr sample_boxes)] cleanup_init) = Unsettled"
  by code_simp

section \<open>Claims about closing the session and about timers\<close>




text \<open>
  C8, the claim as it is stated, fails for the cleanup: its executor arms the operation
  timer only, and no connection-level timer exists that could fire.
\<close>

theorem cleanup_installs_no_connection_timer:
  "ConnectionTimeout \<notin> timers cleanup_init
   \<and> cleanup_step [''spam''] (TimerFires ConnectionTimeout) cleanup_init = cleanup_init"
  by (simp add: cleanup_init_def)

lemma fetch_timer_fires:
  assumes inv: "fetch_inv s" and t: "t \<in> timers s" and np: "t \<noteq> ParseDelay"
  shows "endCalls (fetch_step cfg (TimerFires t) s) = endCalls s + 1 \<and>
         t \<notin> timers (fetch_step cfg (TimerFires t) s) \<and>
         (\<exists>err. promise (fetch_step cfg (TimerFires t) s) = Rejected err \<and> timeout_error err)"
  using assms
  by (cases t; cases "promise s") (auto simp: fetch_inv_def timeout_error_def)

lemma cleanup_timer_fires:
  assumes inv: "cleanup_inv s" and t: "t \<in> timers s"
  shows "t = OperationTimeout \<and>
         endCalls (cleanup_step cats (TimerFires t) s) = endCalls s + 1 \<and>
         timers (cleanup_step cats (TimerFires t) s) = {} \<and>
         promise (cleanup_step cats (TimerFires t) s) = Rejected cleanupTimeoutError"
  using assms
  by (cases t) (auto simp: cleanup_inv_def)

text \<open>
  C8 as amended. A fetch arms a connection timer and an operation timer, a cleanup an
  operation timer only. Whenever an armed timer of either kind fires, \<^verbatim>\<open>imap.end()\<close> is
  called, the timer is gone and the promise is rejected with a timeout error.
\<close>

theorem timers_close_and_reject:
  "timers (fetch_init st) = {OperationTimeout, ConnectionTimeout}
   \<and> (t \<in> timers (fetch_run cfg es (fetch_init st)) \<and> t \<noteq> ParseDelay \<longrightarrow>
        endCalls (fetch_step cfg (TimerFires t) (fetch_run cfg es (fetch_init st)))
          = endCalls (fetch_run cfg es (fetch_init st)) + 1
        \<and> t \<notin> timers (fetch_step cfg (TimerFires t) (fetch_run cfg es (fetch_init st)))
        \<and> (\<exists>err. promise (fetch_step cfg (TimerFires t) (fetch_run cfg es (fetch_init st)))
                    = Rejected err \<and> timeout_error err))
   \<and> timers cleanup_init = {OperationTimeout}
   \<and> (u \<in> timers (cleanup_run cats ces cleanup_init) \<longrightarrow>
        u = OperationTimeout
        \<and> endCalls (cleanup_step cats (TimerFires u) (cleanup_run cats ces cleanup_init))
          = endCalls (cleanup_run cats ces cleanup_init) + 1
        \<and> timers (cleanup_step cats (TimerFires u) (cleanup_run cats ces cleanup_init)) = {}
        \<and> promise (cleanup_step cats (TimerFires u) (cleanup_run cats ces cleanup_init))
            = Rejected cleanupTimeoutError)"
  using fetch_timer_fires[OF fetch_inv_run[OF fetch_inv_init]]
        cleanup_timer_fires[OF cleanup_inv_run[OF cleanup_inv_init]]
  by (simp add: fetch_init_def cleanup_init_def)

theorem timers_close_and_reject_witness:
  "ConnectionTimeout \<in> timers (fetch_run sample_cfg [] (fetch_init []))
   \<and> endCalls (fetch_step sample_cfg (TimerFires ConnectionTimeout)
                 (fetch_run sample_cfg [] (fetch_init []))) = 1
   \<and> promise (fetch_step sample_cfg (TimerFires ConnectionTimeout)
                 (fetch_run sample_cfg [] (fetch_init []))) = Rejected connectionTimeoutError
   \<and> OperationTimeout \<in> timers (cleanup_run [''spam''] [Ready] cleanup_init)
   \<and> promise (cleanup_step [''spam''] (TimerFires OperationTimeout)
                 (cleanup_run [''spam''] [Ready] cleanup_init)) = Rejected cleanupTimeoutError"
proof -
  have a: "ConnectionTimeout \<in> timers (fetch_run sample_cfg [] (fetch_init []))"
    and b: "OperationTimeout \<in> timers (cleanup_run [''spam''] [Ready] cleanup_init)"
    and c: "endCalls (fetch_run sample_cfg [] (fetch_init [])) = 0"
    and d: "promise (fetch_step sample_cfg (TimerFires ConnectionTimeout)
                 (fetch_run sample_cfg [] (fetch_init []))) = Rejected connectionTimeoutError"
    by (simp_all add: fetch_run_def fetch_init_def cleanup_run_def cleanup_init_def)
  from timers_close_and_reject[of "[]" ConnectionTimeout sample_cfg "[]" OperationTimeout
      "[''spam'']" "[Ready]"] a b c d
  show ?thesis by simp
qed

end
